theory Spec2Isabelle
  imports Complex_Main "HOL-Library.Char_ord" "HOL-Library.List_Lexorder"
begin

section \<open>The event table and the subject-level model\<close>

text \<open>
  The notebook \<^verbatim>\<open>notebooks/basic_model_specification.ipynb\<close> reads an events file into a
  pandas data frame \<^verbatim>\<open>trialinfo\<close> and, in its last code cell, turns it into a
  \<^verbatim>\<open>Bunch\<close> of conditions, onsets and durations:
  \<^verbatim>\<open>
  conditions = []
  onsets = []
  durations = []

  for group in trialinfo.groupby('trial_type'):
      conditions.append(group[0])
      onsets.append(group[1].onset.tolist())
      durations.append(group[1].duration.tolist())

  subject_info = Bunch(conditions=conditions,
                       onsets=onsets,
                       durations=durations)
  \<close>
  The cell never computes with a cell of the table: it compares the \<^verbatim>\<open>trial_type\<close> values
  (inside \<^verbatim>\<open>groupby\<close>) and copies the \<^verbatim>\<open>onset\<close> and \<^verbatim>\<open>duration\<close> values. A cell is a
  number, a text or the null value \<^verbatim>\<open>NaN\<close> that pandas stores where a record has no value for
  a column. Numbers are only carried, so exact rationals stand for them.
\<close>

datatype cell = Num rat | Txt string | NaN

text \<open>
  One row of the table: the values it has under the names \<^verbatim>\<open>onset\<close>, \<^verbatim>\<open>duration\<close>,
  \<^verbatim>\<open>weight\<close> and \<^verbatim>\<open>trial_type\<close>. The condition label is a string, or \<open>None\<close> where
  the row has no \<^verbatim>\<open>trial_type\<close> (a null key for \<^verbatim>\<open>groupby\<close>). Strings are byte
  sequences, ordered lexicographically by byte value, which is the order of Python's
  \<^verbatim>\<open>str\<close> on code points when the bytes are UTF-8.
\<close>

record TrialRecord =
  onset :: cell
  duration :: cell
  weight :: cell
  trial_type :: "string option"

text \<open>
  The data frame: the labels of its columns, in order and with their repetitions (pandas
  allows a label more than once), the names of its index levels, and its rows. The frame
  that \<^verbatim>\<open>read_table\<close> makes of an events file has distinct column labels and one index
  level without a name, so \<open>index_names\<close> is empty for it. A name is looked up through
  the checks on \<open>columns\<close> and \<open>index_names\<close> below; a field of a row is read only
  when its name passes them.
\<close>

record DataFrame =
  columns :: "string list"
  index_names :: "string list"
  rows :: "TrialRecord list"

text \<open>
  The exceptions pandas raises when a name is not there, or is there more than once. The
  string is the name concerned.
\<close>

datatype error = KeyError string | ValueError string | AttributeError string

text \<open>The \<^verbatim>\<open>Bunch\<close> the cell builds, with the three fields it is given.\<close>

record Bunch =
  conditions :: "string list"
  onsets :: "cell list list"
  durations :: "cell list list"

section \<open>The pandas operations the cell calls\<close>

text \<open>
  \<^verbatim>\<open>trialinfo.groupby('trial_type')\<close> with its defaults (\<^verbatim>\<open>sort=True\<close>, null keys
  dropped): the group keys are the distinct non-null values under the name in ascending
  order, and the group of a key holds the rows with that key in the order they have in the
  frame.
\<close>

definition labels :: "TrialRecord list \<Rightarrow> string list" where
  "labels rs = List.map_filter trial_type rs"

definition group_keys :: "DataFrame \<Rightarrow> string list" where
  "group_keys df = sort (remdups (labels (rows df)))"

definition get_group :: "DataFrame \<Rightarrow> string \<Rightarrow> DataFrame" where
  "get_group df k = df\<lparr>rows := filter (\<lambda>r. trial_type r = Some k) (rows df)\<rparr>"

text \<open>
  How \<^verbatim>\<open>groupby\<close> of current pandas releases resolves the name. A column label is
  taken first: it is refused with \<^verbatim>\<open>ValueError\<close> when an index level has the same name
  (ambiguous) and when the label occurs more than once (the grouper is not
  one-dimensional). Without such a column the name is taken as an index level, refused
  with \<^verbatim>\<open>ValueError\<close> when several levels have it. A name that is neither raises
  \<^verbatim>\<open>KeyError\<close>. All this happens in the call of \<^verbatim>\<open>groupby\<close>, before the loop.
\<close>

definition groupby_trial_type :: "DataFrame \<Rightarrow> error + (string \<times> DataFrame) list" where
  "groupby_trial_type df =
     (if ''trial_type'' \<in> set (columns df) then
        if ''trial_type'' \<in> set (index_names df) then Inl (ValueError ''trial_type'')
        else if count_list (columns df) ''trial_type'' \<noteq> 1 then Inl (ValueError ''trial_type'')
        else Inr (map (\<lambda>k. (k, get_group df k)) (group_keys df))
      else if ''trial_type'' \<in> set (index_names df) then
        if count_list (index_names df) ''trial_type'' \<noteq> 1 then Inl (ValueError ''trial_type'')
        else Inr (map (\<lambda>k. (k, get_group df k)) (group_keys df))
      else Inl (KeyError ''trial_type''))"

text \<open>
  \<^verbatim>\<open>g.onset.tolist()\<close> and \<^verbatim>\<open>g.duration.tolist()\<close>. The attribute is looked up among
  the column labels only: \<^verbatim>\<open>AttributeError\<close> for the name when no column has it. With
  one such column the attribute is that column, and \<^verbatim>\<open>tolist\<close> gives its values in row
  order. With several the attribute is a frame of these columns, which has no
  \<^verbatim>\<open>tolist\<close>: \<^verbatim>\<open>AttributeError\<close> for \<^verbatim>\<open>tolist\<close>.
\<close>

definition onset_tolist :: "DataFrame \<Rightarrow> error + cell list" where
  "onset_tolist g =
     (if ''onset'' \<notin> set (columns g) then Inl (AttributeError ''onset'')
      else if count_list (columns g) ''onset'' \<noteq> 1 then Inl (AttributeError ''tolist'')
      else Inr (map onset (rows g)))"

definition duration_tolist :: "DataFrame \<Rightarrow> error + cell list" where
  "duration_tolist g =
     (if ''duration'' \<notin> set (columns g) then Inl (AttributeError ''duration'')
      else if count_list (columns g) ''duration'' \<noteq> 1 then Inl (AttributeError ''tolist'')
      else Inr (map duration (rows g)))"

section \<open>The grouping cell\<close>

text \<open>
  The \<^verbatim>\<open>for\<close> loop over the groups, with the three lists it appends to as the state. An
  exception ends the loop and the cell: no \<^verbatim>\<open>Bunch\<close> is built.
\<close>

fun for_groups :: "Bunch \<Rightarrow> (string \<times> DataFrame) list \<Rightarrow> error + Bunch" where
  "for_groups b [] = Inr b"
| "for_groups b ((k, g) # gs) =
     (let b1 = b\<lparr>conditions := conditions b @ [k]\<rparr> in
      case onset_tolist g of
        Inl e \<Rightarrow> Inl e
      | Inr os \<Rightarrow>
         (let b2 = b1\<lparr>onsets := onsets b1 @ [os]\<rparr> in
          case duration_tolist g of
            Inl e \<Rightarrow> Inl e
          | Inr ds \<Rightarrow> for_groups (b2\<lparr>durations := durations b2 @ [ds]\<rparr>) gs))"

definition group :: "DataFrame \<Rightarrow> error + Bunch" where
  "group trialinfo =
     (case groupby_trial_type trialinfo of
        Inl e \<Rightarrow> Inl e
      | Inr gs \<Rightarrow> for_groups \<lparr>conditions = [], onsets = [], durations = []\<rparr> gs)"

section \<open>Notions the properties are stated with\<close>

text \<open>
  The name \<^verbatim>\<open>trial_type\<close> can be grouped on: it is the label of exactly one column and
  the name of no index level, or the name of exactly one index level and the label of no
  column. The frame has exactly one column of a given label.
\<close>

definition groupable :: "DataFrame \<Rightarrow> bool" where
  "groupable df \<longleftrightarrow>
     count_list (columns df) ''trial_type'' = 1 \<and> ''trial_type'' \<notin> set (index_names df) \<or>
     ''trial_type'' \<notin> set (columns df) \<and> count_list (index_names df) ''trial_type'' = 1"

definition one_column :: "string \<Rightarrow> DataFrame \<Rightarrow> bool" where
  "one_column c df \<longleftrightarrow> count_list (columns df) c = 1"

text \<open>
  The \<^verbatim>\<open>Bunch\<close> the loop arrives at when no column is missing, written without the loop:
  one entry per group key, each with the onsets and the durations of the rows of that key.
\<close>

definition grouped :: "DataFrame \<Rightarrow> Bunch" where
  "grouped df =
     \<lparr>conditions = group_keys df,
      onsets = map (\<lambda>k. map onset (filter (\<lambda>r. trial_type r = Some k) (rows df))) (group_keys df),
      durations = map (\<lambda>k. map duration (filter (\<lambda>r. trial_type r = Some k) (rows df))) (group_keys df)\<rparr>"

text \<open>
  The order of first appearance, as the specification describes it: scan the labels in
  input order and append a label to the list of those seen when it is not in it yet.
\<close>

fun first_seen :: "string list \<Rightarrow> string list \<Rightarrow> string list" where
  "first_seen seen [] = seen"
| "first_seen seen (l # ls) =
     (if l \<in> set seen then first_seen seen ls else first_seen (seen @ [l]) ls)"

definition first_appearance :: "TrialRecord list \<Rightarrow> string list" where
  "first_appearance rs = first_seen [] (labels rs)"

text \<open>
  Two tables that are equal except in the \<^verbatim>\<open>weight\<close> values of their records: the same
  column labels, the optional \<^verbatim>\<open>weight\<close> column apart, the same index names, as many
  rows, and row by row the same onset, duration and trial type.
\<close>

definition same_except_weight :: "DataFrame \<Rightarrow> DataFrame \<Rightarrow> bool" where
  "same_except_weight df df' \<longleftrightarrow>
     filter (\<lambda>c. c \<noteq> ''weight'') (columns df) = filter (\<lambda>c. c \<noteq> ''weight'') (columns df') \<and>
     index_names df = index_names df' \<and>
     list_all2 (\<lambda>r r'. onset r = onset r' \<and> duration r = duration r' \<and>
                        trial_type r = trial_type r') (rows df) (rows df')"

text \<open>
  The flattened reconstruction of a \<^verbatim>\<open>Bunch\<close>: one record for each pair of an onset and
  the duration at the same place, labelled with the condition of their lists, condition by
  condition. The \<^verbatim>\<open>Bunch\<close> holds no weights, so the records have none.
\<close>

definition flatten :: "Bunch \<Rightarrow> TrialRecord list" where
  "flatten cm =
     concat (map (\<lambda>(c, os, ds).
                    map (\<lambda>(a, d). \<lparr>onset = a, duration = d, weight = NaN, trial_type = Some c\<rparr>)
                      (zip os ds))
               (zip (conditions cm) (zip (onsets cm) (durations cm))))"

text \<open>
  A record sequence re-interleaves a \<^verbatim>\<open>Bunch\<close> when its records are labelled with the
  conditions of the \<^verbatim>\<open>Bunch\<close> and, condition by condition, their onsets and durations
  are the lists of the \<^verbatim>\<open>Bunch\<close> in the same order. The flattened reconstruction is
  one such sequence; the input the \<^verbatim>\<open>Bunch\<close> came from is another, when all its records
  are labelled.
\<close>

definition reconstructs :: "Bunch \<Rightarrow> TrialRecord list \<Rightarrow> bool" where
  "reconstructs cm rs \<longleftrightarrow>
     (\<forall>r\<in>set rs. trial_type r \<in> Some ` set (conditions cm)) \<and>
     map (\<lambda>c. map onset (filter (\<lambda>r. trial_type r = Some c) rs)) (conditions cm) = onsets cm \<and>
     map (\<lambda>c. map duration (filter (\<lambda>r. trial_type r = Some c) rs)) (conditions cm) = durations cm"

text \<open>A record with its onset and duration kept, labelled \<open>k\<close> and without weight.\<close>

definition relabel :: "string \<Rightarrow> TrialRecord \<Rightarrow> TrialRecord" where
  "relabel k r = \<lparr>onset = onset r, duration = duration r, weight = NaN, trial_type = Some k\<rparr>"

section \<open>Example tables\<close>

text \<open>
  The columns of the events file of the notebook, a row of it (every weight there is 1),
  and its first five rows with the \<^verbatim>\<open>Bunch\<close> they give.
\<close>

definition events_columns :: "string list" where
  "events_columns = [''onset'', ''duration'', ''weight'', ''trial_type'']"

definition trial :: "rat \<Rightarrow> rat \<Rightarrow> string \<Rightarrow> TrialRecord" where
  "trial a d c = \<lparr>onset = Num a, duration = Num d, weight = Num 1, trial_type = Some c\<rparr>"

definition events5 :: DataFrame where
  "events5 = \<lparr>columns = events_columns, index_names = [],
     rows = [trial 10 15 ''Finger'', trial 40 15 ''Foot'', trial 70 15 ''Lips'',
             trial 100 15 ''Finger'', trial 130 15 ''Foot'']\<rparr>"

definition model5 :: Bunch where
  "model5 = \<lparr>conditions = [''Finger'', ''Foot'', ''Lips''],
     onsets = [[Num 10, Num 100], [Num 40, Num 130], [Num 70]],
     durations = [[Num 15, Num 15], [Num 15, Num 15], [Num 15]]\<rparr>"

text \<open>A table whose labels first appear in descending order.\<close>

definition swapped :: DataFrame where
  "swapped = \<lparr>columns = events_columns, index_names = [],
     rows = [trial 40 15 ''Foot'', trial 100 15 ''Finger'']\<rparr>"

definition swapped_model :: Bunch where
  "swapped_model = \<lparr>conditions = [''Finger'', ''Foot''],
     onsets = [[Num 100], [Num 40]], durations = [[Num 15], [Num 15]]\<rparr>"

text \<open>
  A table with a record without trial type, and a record without onset whose duration is
  a text.
\<close>

definition malformed :: DataFrame where
  "malformed = \<lparr>columns = events_columns, index_names = [],
     rows = [\<lparr>onset = Num 10, duration = Num 15, weight = Num 1, trial_type = None\<rparr>,
             \<lparr>onset = NaN, duration = Txt ''long'', weight = NaN, trial_type = Some ''Foot''\<rparr>]\<rparr>"

definition malformed_model :: Bunch where
  "malformed_model = \<lparr>conditions = [''Foot''], onsets = [[NaN]], durations = [[Txt ''long'']]\<rparr>"





text \<open>The events table with its header line only.\<close>

definition header_only :: DataFrame where
  "header_only = \<lparr>columns = events_columns, index_names = [], rows = []\<rparr>"

text \<open>The events table with other weights.\<close>

definition reweighted :: DataFrame where
  "reweighted = \<lparr>columns = events_columns, index_names = [],
     rows = map (\<lambda>r. r\<lparr>weight := Num 2\<rparr>) (rows events5)\<rparr>"

text \<open>The table \<open>swapped\<close> with its two records in the other order.\<close>

definition unswapped :: DataFrame where
  "unswapped = \<lparr>columns = events_columns, index_names = [],
     rows = [trial 100 15 ''Finger'', trial 40 15 ''Foot'']\<rparr>"

section \<open>Properties of the operations\<close>

subsection \<open>Group keys\<close>

lemma set_labels: "set (labels rs) = {c. \<exists>r\<in>set rs. trial_type r = Some c}"
  by (induction rs) (auto simp: labels_def split: option.splits)

lemma labels_Nil_iff: "labels rs = [] \<longleftrightarrow> (\<forall>r\<in>set rs. trial_type r = None)"
  by (induction rs) (auto simp: labels_def split: option.splits)

lemma set_group_keys: "set (group_keys df) = {c. \<exists>r\<in>set (rows df). trial_type r = Some c}"
  by (simp add: group_keys_def set_labels)

lemma sorted_group_keys: "sorted (group_keys df)"
  by (simp add: group_keys_def)

lemma distinct_group_keys: "distinct (group_keys df)"
  by (simp add: group_keys_def)

lemma group_keys_Nil_iff: "group_keys df = [] \<longleftrightarrow> (\<forall>r\<in>set (rows df). trial_type r = None)"
proof -
  have "set (group_keys df) = set (labels (rows df))"
    by (simp add: group_keys_def)
  then have "group_keys df = [] \<longleftrightarrow> labels (rows df) = []"
    by (metis set_empty)
  then show ?thesis
    by (simp add: labels_Nil_iff)
qed

subsection \<open>Name lookups\<close>

lemma one_column_in_set: "one_column c df \<Longrightarrow> c \<in> set (columns df)"
  by (metis count_list_0_iff one_column_def zero_neq_one)

lemma groupby_cases:
  "groupby_trial_type df =
     (if groupable df then Inr (map (\<lambda>k. (k, get_group df k)) (group_keys df))
      else if ''trial_type'' \<notin> set (columns df) \<and> ''trial_type'' \<notin> set (index_names df)
      then Inl (KeyError ''trial_type'')
      else Inl (ValueError ''trial_type''))"
  by (auto simp: groupby_trial_type_def groupable_def count_list_0_iff)

lemma onset_tolist_group:
  "onset_tolist (get_group df k) =
     (if ''onset'' \<notin> set (columns df) then Inl (AttributeError ''onset'')
      else if \<not> one_column ''onset'' df then Inl (AttributeError ''tolist'')
      else Inr (map onset (filter (\<lambda>r. trial_type r = Some k) (rows df))))"
  by (simp add: onset_tolist_def get_group_def one_column_def)

lemma duration_tolist_group:
  "duration_tolist (get_group df k) =
     (if ''duration'' \<notin> set (columns df) then Inl (AttributeError ''duration'')
      else if \<not> one_column ''duration'' df then Inl (AttributeError ''tolist'')
      else Inr (map duration (filter (\<lambda>r. trial_type r = Some k) (rows df))))"
  by (simp add: duration_tolist_def get_group_def one_column_def)

subsection \<open>The loop\<close>

text \<open>
  Every group has the columns of the table, so the loop either fails at its first group or
  runs through all of them.
\<close>

lemma for_groups_Inr:
  "one_column ''onset'' df \<Longrightarrow> one_column ''duration'' df \<Longrightarrow>
   for_groups b (map (\<lambda>k. (k, get_group df k)) ks) =
     Inr \<lparr>conditions = conditions b @ ks,
          onsets = onsets b @ map (\<lambda>k. map onset (filter (\<lambda>r. trial_type r = Some k) (rows df))) ks,
          durations = durations b @ map (\<lambda>k. map duration (filter (\<lambda>r. trial_type r = Some k) (rows df))) ks\<rparr>"
proof (induction ks arbitrary: b)
  case Nil
  then show ?case by simp
next
  case (Cons k ks)
  then show ?case
    by (simp add: onset_tolist_group duration_tolist_group one_column_in_set)
qed

lemma for_groups_fails:
  "\<not> (one_column ''onset'' df \<and> one_column ''duration'' df) \<Longrightarrow>
   for_groups b (map (\<lambda>k. (k, get_group df k)) (k0 # ks)) =
     (if ''onset'' \<notin> set (columns df) then Inl (AttributeError ''onset'')
      else if \<not> one_column ''onset'' df then Inl (AttributeError ''tolist'')
      else if ''duration'' \<notin> set (columns df) then Inl (AttributeError ''duration'')
      else Inl (AttributeError ''tolist''))"
  by (auto simp: onset_tolist_group duration_tolist_group)

text \<open>What the cell does, case by case.\<close>

lemma group_cases:
  "group df =
     (if \<not> groupable df then
        if ''trial_type'' \<notin> set (columns df) \<and> ''trial_type'' \<notin> set (index_names df)
        then Inl (KeyError ''trial_type'') else Inl (ValueError ''trial_type'')
      else if group_keys df = [] then Inr \<lparr>conditions = [], onsets = [], durations = []\<rparr>
      else if ''onset'' \<notin> set (columns df) then Inl (AttributeError ''onset'')
      else if \<not> one_column ''onset'' df then Inl (AttributeError ''tolist'')
      else if ''duration'' \<notin> set (columns df) then Inl (AttributeError ''duration'')
      else if \<not> one_column ''duration'' df then Inl (AttributeError ''tolist'')
      else Inr (grouped df))"
proof (cases "group_keys df")
  case Nil
  then show ?thesis by (simp add: group_def groupby_cases)
next
  case (Cons k ks)
  show ?thesis
  proof (cases "one_column ''onset'' df \<and> one_column ''duration'' df")
    case True
    then show ?thesis
      using for_groups_Inr [of df _ "k # ks"] Cons
      by (simp add: group_def groupby_cases grouped_def one_column_in_set
          del: for_groups.simps list.map)
  next
    case False
    then show ?thesis
      using for_groups_fails [of df _ k ks] Cons
      by (auto simp: group_def groupby_cases one_column_in_set simp del: for_groups.simps list.map)
  qed
qed

lemma group_Inr_groupable: "group df = Inr cm \<Longrightarrow> groupable df"
  by (auto simp: group_cases split: if_splits)

lemma conditions_group: "group df = Inr cm \<Longrightarrow> conditions cm = group_keys df"
  by (auto simp: group_cases grouped_def split: if_splits)

lemma onsets_group:
  "group df = Inr cm \<Longrightarrow>
   onsets cm = map (\<lambda>k. map onset (filter (\<lambda>r. trial_type r = Some k) (rows df))) (group_keys df)"
  by (auto simp: group_cases grouped_def split: if_splits)

lemma durations_group:
  "group df = Inr cm \<Longrightarrow>
   durations cm = map (\<lambda>k. map duration (filter (\<lambda>r. trial_type r = Some k) (rows df))) (group_keys df)"
  by (auto simp: group_cases grouped_def split: if_splits)

lemma group_Inr_grouped: "group df = Inr cm \<Longrightarrow> cm = grouped df"
  by (auto simp: group_cases grouped_def split: if_splits)


lemma groupable_rows [simp]: "groupable (df\<lparr>rows := rs\<rparr>) = groupable df"
  by (simp add: groupable_def)

lemma one_column_rows [simp]: "one_column c (df\<lparr>rows := rs\<rparr>) = one_column c df"
  by (simp add: one_column_def)

lemma zip_onset_duration:
  "zip (map onset rs) (map duration rs) = map (\<lambda>r. (onset r, duration r)) rs"
  by (induction rs) simp_all

subsection \<open>First appearance\<close>

lemma set_first_seen: "set (first_seen seen ls) = set seen \<union> set ls"
  by (induction seen ls rule: first_seen.induct) auto

lemma distinct_first_seen: "distinct seen \<Longrightarrow> distinct (first_seen seen ls)"
  by (induction seen ls rule: first_seen.induct) auto

lemma group_keys_first_appearance:
  "group_keys df = first_appearance (rows df) \<longleftrightarrow> sorted (first_appearance (rows df))"
proof
  assume "group_keys df = first_appearance (rows df)"
  then show "sorted (first_appearance (rows df))"
    using sorted_group_keys [of df] by simp
next
  assume s: "sorted (first_appearance (rows df))"
  have "set (first_appearance (rows df)) = set (group_keys df)"
    by (simp add: first_appearance_def set_first_seen group_keys_def)
  moreover have "distinct (first_appearance (rows df))"
    by (simp add: first_appearance_def distinct_first_seen)
  ultimately show "group_keys df = first_appearance (rows df)"
    using s sorted_group_keys [of df] distinct_group_keys [of df]
    by (metis sorted_distinct_set_unique)
qed

lemma group_keys_sort_first_appearance: "group_keys df = sort (first_appearance (rows df))"
proof -
  have "set (sort (first_appearance (rows df))) = set (group_keys df)"
    by (simp add: first_appearance_def set_first_seen group_keys_def)
  moreover have "distinct (sort (first_appearance (rows df)))"
    by (simp add: first_appearance_def distinct_first_seen)
  ultimately show ?thesis
    using sorted_group_keys [of df] distinct_group_keys [of df]
    by (intro sorted_distinct_set_unique) auto
qed

lemma sorted_head_least:
  fixes ks :: "string list"
  assumes "sorted ks" and "c \<in> set ks"
  shows "ks ! 0 = c \<longleftrightarrow> (\<forall>k\<in>set ks. c \<le> k)"
proof (cases ks)
  case Nil
  with assms show ?thesis by simp
next
  case (Cons k0 ks')
  with assms have "\<forall>k\<in>set ks. k0 \<le> k"
    by auto
  moreover have "k0 \<in> set ks"
    using Cons by simp
  ultimately show ?thesis
    using assms(2) Cons by (auto intro: antisym)
qed

subsection \<open>Records without trial type, and weights\<close>

lemma filter_labelled:
  "filter (\<lambda>r. trial_type r = Some k) (filter (\<lambda>r. trial_type r \<noteq> None) rs) =
   filter (\<lambda>r. trial_type r = Some k) rs"
  by (induction rs) auto

lemma labels_filter_labelled: "labels (filter (\<lambda>r. trial_type r \<noteq> None) rs) = labels rs"
  by (induction rs) (auto simp: labels_def)

lemma group_keys_filter_labelled:
  "group_keys (df\<lparr>rows := filter (\<lambda>r. trial_type r \<noteq> None) (rows df)\<rparr>) = group_keys df"
  by (simp add: group_keys_def labels_filter_labelled del: not_None_eq)

lemma grouped_filter_labelled:
  "grouped (df\<lparr>rows := filter (\<lambda>r. trial_type r \<noteq> None) (rows df)\<rparr>) = grouped df"
  by (simp add: grouped_def group_keys_filter_labelled filter_labelled
      del: not_None_eq filter_filter)

lemma length_concat_groups:
  "distinct ks \<Longrightarrow> \<forall>r\<in>set rs. \<exists>k\<in>set ks. trial_type r = Some k \<Longrightarrow>
   length (concat (map (\<lambda>k. map f (filter (\<lambda>r. trial_type r = Some k) rs)) ks)) = length rs"
proof (induction ks arbitrary: rs)
  case Nil
  then show ?case by simp
next
  case (Cons k ks)
  let ?rest = "filter (\<lambda>r. trial_type r \<noteq> Some k) rs"
  have same: "filter (\<lambda>r. trial_type r = Some k') ?rest = filter (\<lambda>r. trial_type r = Some k') rs"
    if "k' \<in> set ks" for k'
    using that Cons.prems(1) by (auto intro: filter_cong)
  have "\<forall>r\<in>set ?rest. \<exists>k\<in>set ks. trial_type r = Some k"
    using Cons.prems(2) by auto
  with Cons.IH [of ?rest] Cons.prems(1)
  have a: "length (concat (map (\<lambda>k. map f (filter (\<lambda>r. trial_type r = Some k) ?rest)) ks)) =
      length ?rest"
    by (simp del: filter_filter)
  have b: "map (\<lambda>k. map f (filter (\<lambda>r. trial_type r = Some k) ?rest)) ks =
      map (\<lambda>k. map f (filter (\<lambda>r. trial_type r = Some k) rs)) ks"
    using same by (simp del: filter_filter)
  have c: "length (concat (map (\<lambda>k. map f (filter (\<lambda>r. trial_type r = Some k) rs)) ks)) =
      length ?rest"
    using a unfolding b .
  show ?case
    using c sum_length_filter_compl [of "\<lambda>r. trial_type r = Some k" rs] by simp
qed

lemma length_concat_grouped:
  "length (concat (map (\<lambda>k. map f (filter (\<lambda>r. trial_type r = Some k) (rows df))) (group_keys df))) =
   length (filter (\<lambda>r. trial_type r \<noteq> None) (rows df))"
proof -
  let ?rs = "filter (\<lambda>r. trial_type r \<noteq> None) (rows df)"
  have "\<forall>r\<in>set ?rs. \<exists>k\<in>set (group_keys df). trial_type r = Some k"
    by (auto simp: set_group_keys)
  then have "length (concat (map (\<lambda>k. map f (filter (\<lambda>r. trial_type r = Some k) ?rs))
      (group_keys df))) = length ?rs"
    using distinct_group_keys by (intro length_concat_groups) auto
  then show ?thesis
    by (simp add: filter_labelled del: not_None_eq filter_filter)
qed

lemma count_list_filter_neq:
  "x \<noteq> w \<Longrightarrow> count_list (filter (\<lambda>c. c \<noteq> w) xs) x = count_list xs x"
  by (induction xs) auto

lemma same_except_weight_count:
  assumes "filter (\<lambda>c. c \<noteq> ''weight'') xs = filter (\<lambda>c. c \<noteq> ''weight'') ys"
    and "x \<noteq> ''weight''"
  shows "count_list xs x = count_list ys x"
  using assms count_list_filter_neq [of x "''weight''" xs] count_list_filter_neq [of x "''weight''" ys]
  by simp

lemma same_except_weight_labels:
  "list_all2 (\<lambda>r r'. onset r = onset r' \<and> duration r = duration r' \<and>
                      trial_type r = trial_type r') rs rs' \<Longrightarrow> labels rs = labels rs'"
  by (induction rule: list_all2_induct) (auto simp: labels_def split: option.splits)

lemma same_except_weight_filter:
  "list_all2 (\<lambda>r r'. onset r = onset r' \<and> duration r = duration r' \<and>
                      trial_type r = trial_type r') rs rs' \<Longrightarrow>
   map onset (filter (\<lambda>r. trial_type r = Some k) rs) =
     map onset (filter (\<lambda>r. trial_type r = Some k) rs') \<and>
   map duration (filter (\<lambda>r. trial_type r = Some k) rs) =
     map duration (filter (\<lambda>r. trial_type r = Some k) rs')"
  by (induction rule: list_all2_induct) auto

subsection \<open>Regrouping\<close>

lemma flatten_keys:
  "flatten \<lparr>conditions = ks, onsets = map (\<lambda>k. map onset (F k)) ks,
            durations = map (\<lambda>k. map duration (F k)) ks\<rparr> =
   concat (map (\<lambda>k. map (relabel k) (F k)) ks)"
  by (induction ks) (simp_all add: flatten_def zip_onset_duration relabel_def)

lemma filter_concat_keys:
  "distinct ks \<Longrightarrow>
   filter (\<lambda>r. trial_type r = Some c) (concat (map (\<lambda>k. map (relabel k) (F k)) ks)) =
     (if c \<in> set ks then map (relabel c) (F c) else [])"
proof (induction ks)
  case Nil
  then show ?case by simp
next
  case (Cons k ks)
  have "filter (\<lambda>r. trial_type r = Some c) (map (relabel k) (F k)) =
          (if c = k then map (relabel k) (F k) else [])"
    by (auto simp: filter_map o_def relabel_def)
  with Cons show ?case by auto
qed

lemma reconstructs_flatten_grouped: "reconstructs (grouped df) (flatten (grouped df))"
proof -
  let ?F = "\<lambda>k. filter (\<lambda>r. trial_type r = Some k) (rows df)"
  let ?ks = "group_keys df"
  have f: "flatten (grouped df) = concat (map (\<lambda>k. map (relabel k) (?F k)) ?ks)"
    unfolding grouped_def by (rule flatten_keys)
  have "\<forall>r\<in>set (flatten (grouped df)). trial_type r \<in> Some ` set ?ks"
    unfolding f by (auto simp: relabel_def)
  moreover have "map onset (filter (\<lambda>r. trial_type r = Some c) (flatten (grouped df))) =
      map onset (?F c)" if "c \<in> set ?ks" for c
    unfolding f using that
    by (simp add: filter_concat_keys [OF distinct_group_keys] o_def relabel_def)
  moreover have "map duration (filter (\<lambda>r. trial_type r = Some c) (flatten (grouped df))) =
      map duration (?F c)" if "c \<in> set ?ks" for c
    unfolding f using that
    by (simp add: filter_concat_keys [OF distinct_group_keys] o_def relabel_def)
  ultimately show ?thesis
    by (simp add: reconstructs_def grouped_def)
qed

lemma regroup_reconstruction:
  assumes g: "group df = Inr cm" and r: "reconstructs cm rs"
  shows "group (df\<lparr>rows := rs\<rparr>) = Inr cm"
proof -
  let ?df' = "df\<lparr>rows := rs\<rparr>"
  have cm: "cm = grouped df"
    using g by (rule group_Inr_grouped)
  have tt: "groupable df"
    using g by (rule group_Inr_groupable)
  have sub: "set (group_keys ?df') \<subseteq> set (group_keys df)"
  proof
    fix c assume "c \<in> set (group_keys ?df')"
    then obtain x where "x \<in> set rs" and "trial_type x = Some c"
      by (auto simp: set_group_keys)
    moreover from r have "\<forall>x\<in>set rs. trial_type x \<in> Some ` set (group_keys df)"
      by (simp add: reconstructs_def cm grouped_def)
    ultimately show "c \<in> set (group_keys df)"
      by force
  qed
  have sup: "c \<in> set (group_keys ?df')" if c: "c \<in> set (group_keys df)" for c
  proof -
    from r have "map (\<lambda>c. map onset (filter (\<lambda>r. trial_type r = Some c) rs)) (group_keys df) =
        map (\<lambda>k. map onset (filter (\<lambda>r. trial_type r = Some k) (rows df))) (group_keys df)"
      by (simp add: reconstructs_def cm grouped_def)
    with c have "map onset (filter (\<lambda>r. trial_type r = Some c) rs) =
        map onset (filter (\<lambda>r. trial_type r = Some c) (rows df))"
      by simp
    moreover from c have "filter (\<lambda>r. trial_type r = Some c) (rows df) \<noteq> []"
      by (auto simp: set_group_keys filter_empty_conv)
    ultimately have "filter (\<lambda>r. trial_type r = Some c) rs \<noteq> []"
      by (metis map_is_Nil_conv)
    then show ?thesis
      by (auto simp: set_group_keys filter_empty_conv)
  qed
  have k: "group_keys ?df' = group_keys df"
    using sub sup sorted_group_keys distinct_group_keys
    by (intro sorted_distinct_set_unique) auto
  have c: "conditions cm = group_keys df"
    using g by (rule conditions_group)
  have "grouped ?df' = cm"
    using r c by (cases cm) (simp add: grouped_def k reconstructs_def)
  moreover have "group ?df' = Inr (grouped ?df')"
    using g tt by (auto simp: group_cases k grouped_def split: if_splits)
  ultimately show ?thesis by simp
qed

subsection \<open>The example tables\<close>

lemmas group_unfold =
  group_def groupby_trial_type_def group_keys_def labels_def get_group_def
  onset_tolist_def duration_tolist_def

lemma group_events5: "group events5 = Inr model5"
  by (simp add: group_unfold events5_def model5_def events_columns_def trial_def)

lemma group_swapped: "group swapped = Inr swapped_model"
  by (simp add: group_unfold swapped_def swapped_model_def events_columns_def trial_def)

lemma group_unswapped: "group unswapped = Inr swapped_model"
  by (simp add: group_unfold unswapped_def swapped_model_def events_columns_def trial_def)

lemma group_malformed: "group malformed = Inr malformed_model"
  by (simp add: group_unfold malformed_def malformed_model_def events_columns_def)

section \<open>The claims\<close>

text \<open>
  C1 (as amended). The claim is that \<open>conditions\<close> lists the distinct labels in order of
  first appearance, with \<open>conditions[0]\<close> the trial type of the first record. The code
  sorts the group keys, so this fails on the table \<open>swapped\<close>, where \<^verbatim>\<open>Foot\<close> comes
  first and \<open>conditions\<close> is \<^verbatim>\<open>['Finger', 'Foot']\<close>.
\<close>

theorem first_appearance_counterexample:
  "group swapped = Inr swapped_model \<and>
   conditions swapped_model \<noteq> first_appearance (rows swapped) \<and>
   Some (conditions swapped_model ! 0) \<noteq> trial_type (rows swapped ! 0)"
  by (simp add: group_unfold swapped_def swapped_model_def events_columns_def trial_def
      first_appearance_def)

text \<open>
  C1, what holds: whenever the cell returns, \<open>conditions\<close> lists the distinct labels of
  the input, each once, in ascending order: it is the list of the labels in order of first
  appearance, sorted. So it is in order of first appearance exactly when the labels first
  appear in ascending order; and when the first record has a trial type, \<open>conditions[0]\<close>
  is that trial type exactly when no record has a smaller one.
\<close>

theorem conditions_first_appearance:
  assumes "group df = Inr cm"
  shows "distinct (conditions cm) \<and>
         set (conditions cm) = {c. \<exists>r\<in>set (rows df). trial_type r = Some c} \<and>
         conditions cm = sort (first_appearance (rows df)) \<and>
         distinct (first_appearance (rows df)) \<and>
         set (first_appearance (rows df)) = {c. \<exists>r\<in>set (rows df). trial_type r = Some c} \<and>
         (conditions cm = first_appearance (rows df) \<longleftrightarrow> sorted (first_appearance (rows df))) \<and>
         (\<forall>r rs c. rows df = r # rs \<and> trial_type r = Some c \<longrightarrow>
            conditions cm \<noteq> [] \<and>
            (conditions cm ! 0 = c \<longleftrightarrow>
               (\<forall>r'\<in>set (rows df). \<forall>c'. trial_type r' = Some c' \<longrightarrow> c \<le> c')))"
proof -
  have c: "conditions cm = group_keys df"
    using assms by (rule conditions_group)
  have a: "conditions cm = first_appearance (rows df) \<longleftrightarrow> sorted (first_appearance (rows df))"
    by (simp add: c group_keys_first_appearance)
  have d: "distinct (first_appearance (rows df))"
    by (simp add: first_appearance_def distinct_first_seen)
  have s: "set (first_appearance (rows df)) = {c. \<exists>r\<in>set (rows df). trial_type r = Some c}"
    by (simp add: first_appearance_def set_first_seen set_labels)
  have b: "conditions cm \<noteq> [] \<and>
      (conditions cm ! 0 = c \<longleftrightarrow>
         (\<forall>r'\<in>set (rows df). \<forall>c'. trial_type r' = Some c' \<longrightarrow> c \<le> c'))"
    if e: "rows df = r # rs" and t: "trial_type r = Some c" for r rs c
  proof -
    from e t have m: "c \<in> set (group_keys df)"
      by (auto simp: set_group_keys)
    then have "group_keys df \<noteq> []"
      by auto
    moreover have "group_keys df ! 0 = c \<longleftrightarrow> (\<forall>k\<in>set (group_keys df). c \<le> k)"
      using sorted_group_keys m by (rule sorted_head_least)
    moreover have "(\<forall>k\<in>set (group_keys df). c \<le> k) \<longleftrightarrow>
        (\<forall>r'\<in>set (rows df). \<forall>c'. trial_type r' = Some c' \<longrightarrow> c \<le> c')"
      by (auto simp: set_group_keys)
    ultimately show ?thesis
      by (simp add: c)
  qed
  have "conditions cm = sort (first_appearance (rows df))"
    by (simp add: c group_keys_sort_first_appearance)
  moreover have "distinct (conditions cm)"
    by (simp add: c distinct_group_keys)
  moreover have "set (conditions cm) = {c. \<exists>r\<in>set (rows df). trial_type r = Some c}"
    by (simp add: c set_group_keys)
  ultimately show ?thesis
    using a d s b by blast
qed

theorem conditions_first_appearance_witness:
  "group events5 = Inr model5 \<and>
   conditions model5 = sort (first_appearance (rows events5)) \<and>
   sorted (first_appearance (rows events5)) \<and>
   conditions model5 = first_appearance (rows events5) \<and>
   rows events5 = trial 10 15 ''Finger'' # tl (rows events5) \<and>
   trial_type (trial 10 15 ''Finger'') = Some ''Finger'' \<and>
   conditions model5 ! 0 = ''Finger'' \<and>
   group swapped = Inr swapped_model \<and>
   conditions swapped_model = sort (first_appearance (rows swapped)) \<and>
   rows swapped = trial 40 15 ''Foot'' # tl (rows swapped) \<and>
   trial_type (trial 40 15 ''Foot'') = Some ''Foot'' \<and>
   conditions swapped_model ! 0 \<noteq> ''Foot''"
proof -
  have s: "sorted (first_appearance (rows events5))"
    by (simp add: events5_def first_appearance_def labels_def trial_def)
  have e: "rows events5 = trial 10 15 ''Finger'' # tl (rows events5)"
    by (simp add: events5_def)
  have t: "trial_type (trial 10 15 ''Finger'') = Some ''Finger''"
    by (simp add: trial_def)
  have l: "\<forall>r'\<in>set (rows events5). \<forall>c'. trial_type r' = Some c' \<longrightarrow> ''Finger'' \<le> c'"
    by (simp add: events5_def trial_def)
  have e': "rows swapped = trial 40 15 ''Foot'' # tl (rows swapped)"
    by (simp add: swapped_def)
  have t': "trial_type (trial 40 15 ''Foot'') = Some ''Foot''"
    by (simp add: trial_def)
  have "trial 100 15 ''Finger'' \<in> set (rows swapped)"
    "trial_type (trial 100 15 ''Finger'') = Some ''Finger''" "\<not> ''Foot'' \<le> ''Finger''"
    by (simp_all add: swapped_def trial_def)
  then have l':
    "\<not> (\<forall>r'\<in>set (rows swapped). \<forall>c'. trial_type r' = Some c' \<longrightarrow> ''Foot'' \<le> c')"
    by blast
  from conditions_first_appearance [OF group_events5] s e t l
  have "conditions model5 = sort (first_appearance (rows events5)) \<and>
      conditions model5 = first_appearance (rows events5) \<and> conditions model5 ! 0 = ''Finger''"
    by blast
  moreover from conditions_first_appearance [OF group_swapped] e' t' l'
  have "conditions swapped_model = sort (first_appearance (rows swapped)) \<and>
      conditions swapped_model ! 0 \<noteq> ''Foot''"
    by blast
  ultimately show ?thesis
    using group_events5 group_swapped s e t l e' t' by blast
qed

text \<open>
  C2. Whenever the cell returns, the three fields have the same length, and at each index
  \<open>i\<close> the lists \<open>onsets[i]\<close> and \<open>durations[i]\<close> have the same length, which is the
  number of input records whose trial type is \<open>conditions[i]\<close>.
\<close>

theorem lengths_aligned:
  assumes "group df = Inr cm"
  shows "length (conditions cm) = length (onsets cm) \<and>
         length (onsets cm) = length (durations cm) \<and>
         (\<forall>i<length (conditions cm).
            length (onsets cm ! i) = length (durations cm ! i) \<and>
            length (onsets cm ! i) =
              length (filter (\<lambda>r. trial_type r = Some (conditions cm ! i)) (rows df)))"
  by (simp add: conditions_group [OF assms] onsets_group [OF assms] durations_group [OF assms])

theorem lengths_aligned_witness:
  "group events5 = Inr model5 \<and>
   length (conditions model5) = length (onsets model5) \<and>
   length (onsets model5) = length (durations model5) \<and>
   1 < length (conditions model5) \<and>
   length (onsets model5 ! 1) = length (durations model5 ! 1) \<and>
   length (onsets model5 ! 1) =
     length (filter (\<lambda>r. trial_type r = Some (conditions model5 ! 1)) (rows events5))"
proof -
  have i: "1 < length (conditions model5)"
    by (simp add: model5_def)
  from lengths_aligned [OF group_events5] i show ?thesis
    using group_events5 by blast
qed

text \<open>
  C3. Whenever the cell returns, the onsets emitted for a condition are the onsets of the
  input records of that condition in the order these records have in the input, and so
  are the durations; the onset at a place is paired with the duration of the same record.
  Every trial type of an input record is one of the conditions.
\<close>

theorem order_and_pairing:
  assumes "group df = Inr cm"
  shows "(\<forall>i<length (conditions cm).
            onsets cm ! i = map onset (filter (\<lambda>r. trial_type r = Some (conditions cm ! i)) (rows df)) \<and>
            durations cm ! i = map duration (filter (\<lambda>r. trial_type r = Some (conditions cm ! i)) (rows df)) \<and>
            zip (onsets cm ! i) (durations cm ! i) =
              map (\<lambda>r. (onset r, duration r))
                (filter (\<lambda>r. trial_type r = Some (conditions cm ! i)) (rows df))) \<and>
         (\<forall>r\<in>set (rows df). \<forall>c. trial_type r = Some c \<longrightarrow>
            (\<exists>i<length (conditions cm). conditions cm ! i = c))"
proof -
  have "\<exists>i<length (group_keys df). group_keys df ! i = c"
    if "r \<in> set (rows df)" "trial_type r = Some c" for r c
  proof -
    from that have "c \<in> set (group_keys df)"
      by (auto simp: set_group_keys)
    then show ?thesis
      by (simp add: in_set_conv_nth)
  qed
  then show ?thesis
    by (simp add: conditions_group [OF assms] onsets_group [OF assms] durations_group [OF assms]
        zip_onset_duration)
qed

theorem order_and_pairing_witness:
  "group events5 = Inr model5 \<and> 0 < length (conditions model5) \<and>
   onsets model5 ! 0 =
     map onset (filter (\<lambda>r. trial_type r = Some (conditions model5 ! 0)) (rows events5)) \<and>
   durations model5 ! 0 =
     map duration (filter (\<lambda>r. trial_type r = Some (conditions model5 ! 0)) (rows events5)) \<and>
   zip (onsets model5 ! 0) (durations model5 ! 0) =
     map (\<lambda>r. (onset r, duration r))
       (filter (\<lambda>r. trial_type r = Some (conditions model5 ! 0)) (rows events5)) \<and>
   trial 40 15 ''Foot'' \<in> set (rows events5) \<and>
   trial_type (trial 40 15 ''Foot'') = Some ''Foot'' \<and>
   (\<exists>i<length (conditions model5). conditions model5 ! i = ''Foot'')"
proof -
  have i: "0 < length (conditions model5)"
    by (simp add: model5_def)
  have r: "trial 40 15 ''Foot'' \<in> set (rows events5)"
    by (simp add: events5_def)
  have t: "trial_type (trial 40 15 ''Foot'') = Some ''Foot''"
    by (simp add: trial_def)
  from order_and_pairing [OF group_events5] i r t show ?thesis
    using group_events5 by blast
qed

text \<open>
  C4. On the five records of the example the cell returns the conditions
  \<^verbatim>\<open>['Finger', 'Foot', 'Lips']\<close>, the onsets \<^verbatim>\<open>[[10, 100], [40, 130], [70]]\<close> and the
  durations \<^verbatim>\<open>[[15, 15], [15, 15], [15]]\<close>, whatever the weights of the records are.
\<close>

theorem group_example:
  "group \<lparr>columns = [''onset'', ''duration'', ''weight'', ''trial_type''], index_names = [],
     rows = [\<lparr>onset = Num 10, duration = Num 15, weight = w1, trial_type = Some ''Finger''\<rparr>,
             \<lparr>onset = Num 40, duration = Num 15, weight = w2, trial_type = Some ''Foot''\<rparr>,
             \<lparr>onset = Num 70, duration = Num 15, weight = w3, trial_type = Some ''Lips''\<rparr>,
             \<lparr>onset = Num 100, duration = Num 15, weight = w4, trial_type = Some ''Finger''\<rparr>,
             \<lparr>onset = Num 130, duration = Num 15, weight = w5, trial_type = Some ''Foot''\<rparr>]\<rparr>
   = Inr \<lparr>conditions = [''Finger'', ''Foot'', ''Lips''],
          onsets = [[Num 10, Num 100], [Num 40, Num 130], [Num 70]],
          durations = [[Num 15, Num 15], [Num 15, Num 15], [Num 15]]\<rparr>"
  by (simp add: group_unfold)




text \<open>
  C6. For a table with no rows, on which \<^verbatim>\<open>groupby\<close> can resolve the name
  \<^verbatim>\<open>trial_type\<close>, the cell returns a \<^verbatim>\<open>Bunch\<close> whose three fields are empty. The table
  of an events file with its header line only is such a table.
\<close>

theorem group_empty:
  assumes "groupable df" and "rows df = []"
  shows "group df = Inr \<lparr>conditions = [], onsets = [], durations = []\<rparr>"
  using assms by (simp add: group_cases group_keys_Nil_iff)

theorem group_empty_witness:
  "groupable header_only \<and> rows header_only = [] \<and>
   group header_only = Inr \<lparr>conditions = [], onsets = [], durations = []\<rparr>"
proof -
  have c: "groupable header_only"
    by (simp add: header_only_def events_columns_def groupable_def)
  have r: "rows header_only = []"
    by (simp add: header_only_def)
  from group_empty [OF c r] c r show ?thesis by blast
qed

text \<open>
  C7. Whenever the cell returns a \<^verbatim>\<open>Bunch\<close>, running it again on the flattened
  reconstruction of that \<^verbatim>\<open>Bunch\<close>, and on any other record sequence that re-interleaves
  it, returns the same \<^verbatim>\<open>Bunch\<close>.
\<close>

theorem regrouping_idempotent:
  assumes "group df = Inr cm"
  shows "reconstructs cm (flatten cm) \<and> group (df\<lparr>rows := flatten cm\<rparr>) = Inr cm \<and>
         (\<forall>rs. reconstructs cm rs \<longrightarrow> group (df\<lparr>rows := rs\<rparr>) = Inr cm)"
proof -
  have "reconstructs cm (flatten cm)"
    using group_Inr_grouped [OF assms] reconstructs_flatten_grouped by simp
  then show ?thesis
    using regroup_reconstruction [OF assms] by blast
qed

theorem regrouping_idempotent_witness:
  "group events5 = Inr model5 \<and> reconstructs model5 (flatten model5) \<and>
   group (events5\<lparr>rows := flatten model5\<rparr>) = Inr model5 \<and>
   reconstructs model5 (rows events5) \<and>
   group (events5\<lparr>rows := rows events5\<rparr>) = Inr model5"
proof -
  have r: "reconstructs model5 (rows events5)"
    by (simp add: reconstructs_def model5_def events5_def trial_def)
  from regrouping_idempotent [OF group_events5] r show ?thesis
    using group_events5 by blast
qed

text \<open>
  C8. The result does not depend on the weights: on two tables that are equal except in
  the weights of their records, the cell gives the same result.
\<close>

theorem weight_noninterference:
  assumes "same_except_weight df df'"
  shows "group df = group df'"
proof -
  from assms have s: "filter (\<lambda>c. c \<noteq> ''weight'') (columns df) =
      filter (\<lambda>c. c \<noteq> ''weight'') (columns df')"
    and i: "index_names df = index_names df'"
    and l: "list_all2 (\<lambda>r r'. onset r = onset r' \<and> duration r = duration r' \<and>
                      trial_type r = trial_type r') (rows df) (rows df')"
    by (simp_all add: same_except_weight_def)
  have n: "count_list (columns df) x = count_list (columns df') x" if "x \<noteq> ''weight''" for x
    using s that by (rule same_except_weight_count)
  have m: "x \<in> set (columns df) \<longleftrightarrow> x \<in> set (columns df')" if "x \<noteq> ''weight''" for x
    using n [OF that] by (metis count_list_0_iff)
  have k: "group_keys df = group_keys df'"
    by (simp add: group_keys_def same_except_weight_labels [OF l])
  have g: "grouped df = grouped df'"
    by (simp add: grouped_def k same_except_weight_filter [OF l])
  have "groupable df = groupable df'"
    by (simp add: groupable_def n m i)
  moreover have "one_column ''onset'' df = one_column ''onset'' df'"
    and "one_column ''duration'' df = one_column ''duration'' df'"
    by (simp_all add: one_column_def n)
  ultimately show ?thesis
    by (simp add: group_cases k g i m)
qed

theorem weight_noninterference_witness:
  "same_except_weight events5 reweighted \<and> group events5 = group reweighted"
proof -
  have s: "same_except_weight events5 reweighted"
    by (simp add: same_except_weight_def events5_def reweighted_def)
  from weight_noninterference [OF s] s show ?thesis by blast
qed

text \<open>
  C9. Whenever the cell returns, \<open>conditions\<close> is strictly ascending in the lexicographic
  order of the labels, and holds exactly the trial types of the input records: it is the
  sorted list of the distinct labels, whatever the order of the records is.
\<close>

theorem conditions_sorted:
  assumes "group df = Inr cm"
  shows "sorted_wrt (<) (conditions cm) \<and>
         set (conditions cm) = {c. \<exists>r\<in>set (rows df). trial_type r = Some c} \<and>
         (\<forall>df' cm'. group df' = Inr cm' \<and> set (rows df') = set (rows df)
            \<longrightarrow> conditions cm' = conditions cm)"
proof -
  have c: "conditions cm = group_keys df"
    using assms by (rule conditions_group)
  have "conditions cm' = conditions cm"
    if g: "group df' = Inr cm'" and e: "set (rows df') = set (rows df)" for df' cm'
  proof -
    have "set (group_keys df') = set (group_keys df)"
      by (simp add: set_group_keys e)
    then have "group_keys df' = group_keys df"
      using sorted_group_keys distinct_group_keys
      by (intro sorted_distinct_set_unique) auto
    then show ?thesis
      by (simp add: c conditions_group [OF g])
  qed
  moreover have "sorted_wrt (<) (conditions cm)"
    by (simp add: c sorted_group_keys distinct_group_keys strict_sorted_iff)
  moreover have "set (conditions cm) = {c. \<exists>r\<in>set (rows df). trial_type r = Some c}"
    by (simp add: c set_group_keys)
  ultimately show ?thesis by blast
qed

theorem conditions_sorted_witness:
  "group swapped = Inr swapped_model \<and> sorted_wrt (<) (conditions swapped_model) \<and>
   set (conditions swapped_model) = {c. \<exists>r\<in>set (rows swapped). trial_type r = Some c} \<and>
   group unswapped = Inr swapped_model \<and> set (rows unswapped) = set (rows swapped) \<and>
   rows unswapped \<noteq> rows swapped"
proof -
  have e: "set (rows unswapped) = set (rows swapped)"
    by (auto simp: unswapped_def swapped_def)
  have n: "rows unswapped \<noteq> rows swapped"
    by (simp add: unswapped_def swapped_def trial_def)
  from conditions_sorted [OF group_swapped] e n show ?thesis
    using group_swapped group_unswapped by blast
qed

text \<open>
  C10. Records without trial type are left out and raise no error. The cell gives on a
  table what it gives on the table without these records. What it returns is built from
  the records that have a trial type: the conditions are their trial types, each once,
  the onsets and durations under a condition are those of the records of that condition,
  and the lists hold as many onsets, and as many durations, as there are records with a
  trial type. When \<^verbatim>\<open>trial_type\<close> is groupable and \<^verbatim>\<open>onset\<close> and \<^verbatim>\<open>duration\<close> are one
  column each, the cell does return.
\<close>

theorem null_trial_type_dropped:
  "group (df\<lparr>rows := filter (\<lambda>r. trial_type r \<noteq> None) (rows df)\<rparr>) = group df \<and>
   (\<forall>cm. group df = Inr cm \<longrightarrow>
      distinct (conditions cm) \<and>
      set (conditions cm) = {c. \<exists>r\<in>set (rows df). trial_type r = Some c} \<and>
      onsets cm =
        map (\<lambda>c. map onset (filter (\<lambda>r. trial_type r = Some c) (rows df))) (conditions cm) \<and>
      durations cm =
        map (\<lambda>c. map duration (filter (\<lambda>r. trial_type r = Some c) (rows df))) (conditions cm) \<and>
      length (concat (onsets cm)) = length (filter (\<lambda>r. trial_type r \<noteq> None) (rows df)) \<and>
      length (concat (durations cm)) = length (filter (\<lambda>r. trial_type r \<noteq> None) (rows df))) \<and>
   (groupable df \<and> one_column ''onset'' df \<and> one_column ''duration'' df \<longrightarrow>
      (\<exists>cm. group df = Inr cm))"
proof -
  have a: "group (df\<lparr>rows := filter (\<lambda>r. trial_type r \<noteq> None) (rows df)\<rparr>) = group df"
    by (simp add: group_cases group_keys_filter_labelled grouped_filter_labelled
        del: not_None_eq)
  have b: "distinct (conditions cm) \<and>
      set (conditions cm) = {c. \<exists>r\<in>set (rows df). trial_type r = Some c} \<and>
      onsets cm =
        map (\<lambda>c. map onset (filter (\<lambda>r. trial_type r = Some c) (rows df))) (conditions cm) \<and>
      durations cm =
        map (\<lambda>c. map duration (filter (\<lambda>r. trial_type r = Some c) (rows df))) (conditions cm) \<and>
      length (concat (onsets cm)) = length (filter (\<lambda>r. trial_type r \<noteq> None) (rows df)) \<and>
      length (concat (durations cm)) = length (filter (\<lambda>r. trial_type r \<noteq> None) (rows df))"
    if g: "group df = Inr cm" for cm
  proof -
    have k: "conditions cm = group_keys df"
      using g by (rule conditions_group)
    have "length (concat (onsets cm)) = length (filter (\<lambda>r. trial_type r \<noteq> None) (rows df))"
      unfolding onsets_group [OF g] by (rule length_concat_grouped)
    moreover
    have "length (concat (durations cm)) = length (filter (\<lambda>r. trial_type r \<noteq> None) (rows df))"
      unfolding durations_group [OF g] by (rule length_concat_grouped)
    moreover have "distinct (conditions cm)"
      unfolding k by (rule distinct_group_keys)
    moreover have "set (conditions cm) = {c. \<exists>r\<in>set (rows df). trial_type r = Some c}"
      unfolding k by (rule set_group_keys)
    moreover have "onsets cm =
        map (\<lambda>c. map onset (filter (\<lambda>r. trial_type r = Some c) (rows df))) (conditions cm)"
      unfolding k by (rule onsets_group [OF g])
    moreover have "durations cm =
        map (\<lambda>c. map duration (filter (\<lambda>r. trial_type r = Some c) (rows df))) (conditions cm)"
      unfolding k by (rule durations_group [OF g])
    ultimately show ?thesis by blast
  qed
  have c: "\<exists>cm. group df = Inr cm"
    if "groupable df" "one_column ''onset'' df" "one_column ''duration'' df"
    using that by (simp add: group_cases one_column_in_set)
  from a b c show ?thesis by blast
qed

theorem null_trial_type_dropped_witness:
  "groupable malformed \<and> one_column ''onset'' malformed \<and> one_column ''duration'' malformed \<and>
   group malformed = Inr malformed_model \<and>
   group (malformed\<lparr>rows := filter (\<lambda>r. trial_type r \<noteq> None) (rows malformed)\<rparr>) =
     Inr malformed_model \<and>
   set (conditions malformed_model) = {c. \<exists>r\<in>set (rows malformed). trial_type r = Some c} \<and>
   onsets malformed_model =
     map (\<lambda>c. map onset (filter (\<lambda>r. trial_type r = Some c) (rows malformed)))
       (conditions malformed_model) \<and>
   durations malformed_model =
     map (\<lambda>c. map duration (filter (\<lambda>r. trial_type r = Some c) (rows malformed)))
       (conditions malformed_model) \<and>
   length (concat (onsets malformed_model)) =
     length (filter (\<lambda>r. trial_type r \<noteq> None) (rows malformed)) \<and>
   length (concat (onsets malformed_model)) = 1 \<and> length (rows malformed) = 2"
proof -
  have m: "groupable malformed" "one_column ''onset'' malformed"
    "one_column ''duration'' malformed"
    by (simp_all add: malformed_def events_columns_def groupable_def one_column_def)
  have n: "length (concat (onsets malformed_model)) = 1" "length (rows malformed) = 2"
    by (simp_all add: malformed_model_def malformed_def)
  note t = null_trial_type_dropped [of malformed]
  from t have "group (malformed\<lparr>rows := filter (\<lambda>r. trial_type r \<noteq> None) (rows malformed)\<rparr>) =
      group malformed"
    by blast
  then have a: "group (malformed\<lparr>rows := filter (\<lambda>r. trial_type r \<noteq> None) (rows malformed)\<rparr>) =
      Inr malformed_model"
    by (simp only: group_malformed)
  from t group_malformed
  have "set (conditions malformed_model) = {c. \<exists>r\<in>set (rows malformed). trial_type r = Some c} \<and>
   onsets malformed_model =
     map (\<lambda>c. map onset (filter (\<lambda>r. trial_type r = Some c) (rows malformed)))
       (conditions malformed_model) \<and>
   durations malformed_model =
     map (\<lambda>c. map duration (filter (\<lambda>r. trial_type r = Some c) (rows malformed)))
       (conditions malformed_model) \<and>
   length (concat (onsets malformed_model)) =
     length (filter (\<lambda>r. trial_type r \<noteq> None) (rows malformed))"
    by blast
  with a m n group_malformed show ?thesis
    by blast
qed

end
